theory Spec2Isabelle
  imports Main "HOL-Library.Word"
begin

unbundle bit_operations_syntax

section \<open>wolf-agent: a readiness-gated streaming proxy (cmd/wolf-agent/main.go)\<close>

text \<open>
  The program has three parts, all inside \<open>main\<close>: a goroutine that polls for the backend
  socket and stores \<open>true\<close> into the atomic flag \<open>ready\<close>, the health handlers
  \<open>/readyz\<close> and \<open>/livez\<close>, and the handler of \<open>/api/v1/\<close> that forwards a request to the
  backend and relays the response in chunks. Each part is embedded as a function that
  returns the list of effects it performs, in program order, together with the way it
  ended. What the operating system, the Go standard library and the two peers answer is an
  input of the model.
\<close>

subsection \<open>Values\<close>

text \<open>
  A Go \<open>error\<close> value: \<open>io.EOF\<close>, or any other error with the text of its \<open>Error()\<close>
  method. A Go string and a Go byte slice are both sequences of 8-bit characters.
\<close>

datatype error = EOF | Err string

fun error_text :: "error \<Rightarrow> string" where
  "error_text EOF = ''EOF''"
| "error_text (Err s) = s"

type_synonym bytes = string

type_synonym FileMode = "32 word"

text \<open>\<open>os.ModeSocket\<close> is the eighth mode bit counted from the top of the 32-bit mode.\<close>

definition ModeSocket :: FileMode where
  "ModeSocket = push_bit (24::nat) 1"

record url =
  Scheme :: string
  Host :: string
  Path :: string
  RawQuery :: string

type_synonym addr = nat

text \<open>
  The fields of \<open>http.Request\<close> that the handler reads or writes. \<open>Header\<close> is a Go map,
  a reference: the field holds the address of the map object in the store below.
\<close>

record request =
  Method :: string
  URL :: url
  Proto :: string
  ProtoMajor :: int
  ProtoMinor :: int
  Header :: addr
  Body :: bytes
  ContentLength :: int
  TransferEncoding :: "string list"
  Ctx :: nat

text \<open>
  What \<open>client.Do\<close> hands back. \<open>RespHeader\<close> lists the entries of the header map in the
  order in which the \<open>range\<close> loop of the handler visits them. \<open>RespBody\<close> is the script of
  the body reader: the results \<open>(buf[:n], err)\<close> of the successive \<open>Read\<close> calls.
\<close>

record response =
  StatusCode :: int
  RespHeader :: "(string \<times> string list) list"
  RespBody :: "(bytes \<times> error option) list"

subsection \<open>Effects\<close>

datatype level = Info | Warning | Error | Fatal

datatype logarg = S string | I int | E error | M FileMode

datatype event =
    Log level "logarg list"
  | ReadyStore bool
  | Stat
  | Dial
  | ConnClose
  | StartAgent
  | Sleep nat
  | HeaderAdd string string
  | HeaderSet string string
  | WriteHeader int
  | ClientWrite bytes "error option"
  | Flush
  | BackendDo request
  | BackendRead nat bytes "error option"
  | BodyClose

subsection \<open>The monitor goroutine (lines 48 to 92)\<close>

text \<open>
  One iteration of the loop sees the answer of \<open>os.Stat\<close> (an error, or the mode of the
  file) and, when it dials, the answer of \<open>net.Dial\<close>. \<open>klog.Fatal\<close> ends the process.
\<close>

record poll =
  stat :: "error + FileMode"
  dial :: "error option"

datatype iter_exit = Continue | Done | Exit

definition monitor_iter :: "poll \<Rightarrow> event list \<times> iter_exit" where
  "monitor_iter p =
     (case stat p of
        Inr mode \<Rightarrow>
          if mode AND ModeSocket \<noteq> 0 then
            (case dial p of
               None \<Rightarrow>
                 ([Stat, Dial, Log Info [S ''wolf.sock is ready''], StartAgent,
                   ReadyStore True, ConnClose], Done)
             | Some err \<Rightarrow>
                 ([Stat, Dial,
                   Log Warning [S ''Waiting for wolf.sock to accept connections: '', E err],
                   Sleep 200], Continue))
          else ([Stat, Log Fatal [S ''wolf.sock is not a socket'', M mode]], Exit)
      | Inl err \<Rightarrow>
          ([Stat, Log Info [S ''Waiting for wolf.sock to appear...'', E err], Sleep 200],
           Continue))"

datatype mon_state = Polling | Finished | Exited

text \<open>
  The loop, run on the answers the system gives to its successive iterations. A script
  that ends while the loop is still polling leaves the goroutine in state \<open>Polling\<close>.
\<close>

fun monitor :: "poll list \<Rightarrow> event list \<times> mon_state" where
  "monitor [] = ([], Polling)"
| "monitor (p # ps) =
     (case monitor_iter p of
        (es, Continue) \<Rightarrow> (case monitor ps of (tr, st) \<Rightarrow> (es @ tr, st))
      | (es, Done) \<Rightarrow> (es, Finished)
      | (es, Exit) \<Rightarrow> (es, Exited))"

subsection \<open>The store of header maps\<close>

text \<open>
  \<open>http.Header\<close> is \<open>map[string][]string\<close>: a map object whose entries point to slices
  of values. Both are objects of a store, so that sharing between two requests is visible.
  \<open>brk\<close> is the next address the allocator hands out.
\<close>

datatype obj = HMap "(string \<times> addr) list" | Vals "string list"

record heap =
  store :: "addr \<rightharpoonup> obj"
  brk :: addr

definition alloc :: "heap \<Rightarrow> obj \<Rightarrow> addr \<times> heap" where
  "alloc h ob = (brk h, h\<lparr>store := (store h)(brk h \<mapsto> ob), brk := Suc (brk h)\<rparr>)"

definition vals_at :: "heap \<Rightarrow> addr \<Rightarrow> string list" where
  "vals_at h a = (case store h a of Some (Vals vs) \<Rightarrow> vs | _ \<Rightarrow> [])"

definition entries_at :: "heap \<Rightarrow> addr \<Rightarrow> (string \<times> addr) list" where
  "entries_at h a = (case store h a of Some (HMap kvs) \<Rightarrow> kvs | _ \<Rightarrow> [])"

text \<open>The multi-map a header address stands for: every key with its values, in order.\<close>

definition header_of :: "heap \<Rightarrow> addr \<Rightarrow> (string \<times> string list) list" where
  "header_of h a = map (\<lambda>(k, sa). (k, vals_at h sa)) (entries_at h a)"

text \<open>
  \<open>Header.Clone\<close> of net/http: a new map whose slices of values are new copies.
\<close>

fun clone_entries :: "heap \<Rightarrow> (string \<times> addr) list \<Rightarrow> (string \<times> addr) list \<times> heap" where
  "clone_entries h [] = ([], h)"
| "clone_entries h ((k, sa) # kvs) =
     (case alloc h (Vals (vals_at h sa)) of
        (sa', h1) \<Rightarrow>
          (case clone_entries h1 kvs of (kvs', h2) \<Rightarrow> ((k, sa') # kvs', h2)))"

definition Header_Clone :: "heap \<Rightarrow> addr \<Rightarrow> addr \<times> heap" where
  "Header_Clone h a =
     (case clone_entries h (entries_at h a) of (kvs', h1) \<Rightarrow> alloc h1 (HMap kvs'))"

text \<open>
  A store is well formed when nothing lives at or above \<open>brk\<close>; a request is well
  formed in a store when its header map and the slices the map points to are below \<open>brk\<close>.
\<close>

definition wf_heap :: "heap \<Rightarrow> bool" where
  "wf_heap h = (\<forall>a. brk h \<le> a \<longrightarrow> store h a = None)"

definition wf_request :: "heap \<Rightarrow> request \<Rightarrow> bool" where
  "wf_request h r =
     (wf_heap h \<and> Header r < brk h \<and> list_all (\<lambda>(k, sa). sa < brk h) (entries_at h (Header r)))"

subsection \<open>The environment of a request\<close>

text \<open>
  What the handler of one request gets from outside: the two functions of net/url it
  depends on (\<open>url.JoinPath\<close>, and \<open>url.Parse\<close> as called by \<open>http.NewRequest\<close>), the
  answer of the backend to \<open>client.Do\<close>, whether the response writer is an
  \<open>http.Flusher\<close>, and the result of the k-th \<open>Write\<close> on the client connection.
\<close>

record env =
  url_JoinPath :: "string \<Rightarrow> string list \<Rightarrow> error + string"
  url_Parse :: "string \<Rightarrow> error + url"
  client_Do :: "heap \<Rightarrow> request \<Rightarrow> error + response"
  is_Flusher :: bool
  client_Write :: "nat \<Rightarrow> error option"

text \<open>
  \<open>http.NewRequest\<close>: an empty method means GET, a method that is not a token or a URL
  that does not parse is an error, and the new request has protocol HTTP/1.1, an empty
  header map of its own and, for a body that is not an in-memory buffer, content length 0.
\<close>

definition isTokenRune :: "char \<Rightarrow> bool" where
  "isTokenRune c =
     (c \<in> set ''!#$%&*+-.^_|~'' \<or> c = CHR 0x27 \<or> c = CHR 0x60
      \<or> (48 \<le> (of_char c :: nat) \<and> (of_char c :: nat) \<le> 57)
      \<or> (65 \<le> (of_char c :: nat) \<and> (of_char c :: nat) \<le> 90)
      \<or> (97 \<le> (of_char c :: nat) \<and> (of_char c :: nat) \<le> 122))"

definition validMethod :: "string \<Rightarrow> bool" where
  "validMethod m = (m \<noteq> [] \<and> list_all isTokenRune m)"

definition http_NewRequest ::
  "env \<Rightarrow> heap \<Rightarrow> string \<Rightarrow> string \<Rightarrow> bytes \<Rightarrow> (error + request) \<times> heap" where
  "http_NewRequest env h method urlstr body =
     (let method' = (if method = [] then ''GET'' else method) in
      if \<not> validMethod method' then (Inl (Err (''net/http: invalid method '' @ method')), h)
      else
        (case url_Parse env urlstr of
           Inl err \<Rightarrow> (Inl err, h)
         | Inr u \<Rightarrow>
             (case alloc h (HMap []) of
                (a, h') \<Rightarrow>
                  (Inr \<lparr>Method = method', URL = u, Proto = ''HTTP/1.1'', ProtoMajor = 1,
                        ProtoMinor = 1, Header = a, Body = body, ContentLength = 0,
                        TransferEncoding = [], Ctx = 0\<rparr>, h'))))"

text \<open>
  \<open>http.Error\<close>: two header fields, the status line, and the message followed by a
  newline as the body.
\<close>

definition http_Error :: "env \<Rightarrow> string \<Rightarrow> int \<Rightarrow> event list" where
  "http_Error env msg code =
     [HeaderSet ''Content-Type'' ''text/plain; charset=utf-8'',
      HeaderSet ''X-Content-Type-Options'' ''nosniff'',
      WriteHeader code,
      ClientWrite (msg @ [CHR 0x0A]) (client_Write env 0)]"

subsection \<open>The body-relay loop (lines 160 to 178)\<close>

text \<open>
  The loop runs on the script of the body reader; \<open>k\<close> counts the writes made so far.
  Each iteration calls \<open>Read\<close> with the 4096-byte buffer; the effect \<open>BackendRead\<close>
  records the size of the buffer and what the call returned. A reader that returned more
  than the buffer holds would make \<open>buf[:n]\<close> panic. A script that ends without an error
  leaves the loop waiting in \<open>Read\<close>.
\<close>

datatype loop_exit = LoopBreak | LoopReturn | LoopPanic | LoopBlocked

fun relay :: "(nat \<Rightarrow> error option) \<Rightarrow> nat \<Rightarrow> (bytes \<times> error option) list
    \<Rightarrow> event list \<times> loop_exit" where
  "relay wr k [] = ([], LoopBlocked)"
| "relay wr k ((d, err) # rest) =
     (if 4096 < length d then ([BackendRead 4096 d err], LoopPanic)
      else if d \<noteq> [] \<and> wr k \<noteq> None then
        ([BackendRead 4096 d err, ClientWrite d (wr k),
          Log Info [S ''Client connection closed'']],
         LoopReturn)
      else
        (let io = BackendRead 4096 d err # (if d \<noteq> [] then [ClientWrite d None, Flush] else []);
             k' = (if d \<noteq> [] then Suc k else k)
         in case err of
              None \<Rightarrow> (case relay wr k' rest of (tr, ex) \<Rightarrow> (io @ tr, ex))
            | Some EOF \<Rightarrow> (io, LoopBreak)
            | Some (Err msg) \<Rightarrow>
                (io @ [Log Error [E (Err msg), S ''Error reading from backend'']],
                 LoopReturn)))"

subsection \<open>The handler of /api/v1/ (lines 106 to 180)\<close>

datatype outcome = Returned | Panicked string | Reading

text \<open>
  Lines 146 to 179: the header fields, the status line, the flusher check, the loop and
  the completion log. The deferred \<open>response.Body.Close()\<close> runs when the handler leaves.
\<close>

definition write_head :: "response \<Rightarrow> event list" where
  "write_head resp =
     concat (map (\<lambda>(key, values). map (HeaderAdd key) values) (RespHeader resp))
     @ [WriteHeader (StatusCode resp)]"

definition stream_response :: "env \<Rightarrow> response \<Rightarrow> event list \<times> outcome" where
  "stream_response env resp =
     (let hdrs = write_head resp
      in if \<not> is_Flusher env then
           (hdrs @ [Log Error [S ''Flushing not supported! Aborting writing response''],
                    BodyClose], Returned)
         else
           (case relay (client_Write env) 0 (RespBody resp) of
              (tr, LoopBreak) \<Rightarrow>
                (hdrs @ tr @ [Log Info [S ''Request completed'', S ''statusCode'',
                                        I (StatusCode resp)], BodyClose], Returned)
            | (tr, LoopReturn) \<Rightarrow> (hdrs @ tr @ [BodyClose], Returned)
            | (tr, LoopPanic) \<Rightarrow>
                (hdrs @ tr @ [BodyClose], Panicked ''slice bounds out of range'')
            | (tr, LoopBlocked) \<Rightarrow> (hdrs @ tr, Reading)))"

text \<open>
  The handler gets the value \<open>ready.Load()\<close> returns, the inbound request and the store.
  When \<open>http.NewRequest\<close> fails, \<open>request\<close> is nil and the assignment of line 123 panics
  before the error is looked at.
\<close>

definition handler :: "env \<Rightarrow> bool \<Rightarrow> request \<Rightarrow> heap \<Rightarrow> heap \<times> event list \<times> outcome" where
  "handler env ready r h =
     (let received = Log Info [S ''Received request:'', S (Method r), S (Path (URL r))] in
      if \<not> ready then (h, [received, WriteHeader 503], Returned)
      else
        (case url_JoinPath env ''http://'' [''wolf.sock'', Path (URL r)] of
           Inl err \<Rightarrow>
             (h, [received, Log Error [E err, S ''Failed to join URL'']]
                 @ http_Error env (''Failed to join URL: '' @ error_text err) 500, Returned)
         | Inr u \<Rightarrow>
             (case http_NewRequest env h (Method r) u (Body r) of
                (Inl err, h1) \<Rightarrow>
                  (h1, [received], Panicked ''invalid memory address or nil pointer dereference'')
              | (Inr request0, h1) \<Rightarrow>
                  (let request1 = request0\<lparr>Proto := Proto r, ProtoMajor := ProtoMajor r,
                                          ProtoMinor := ProtoMinor r,
                                          TransferEncoding := TransferEncoding r,
                                          ContentLength := ContentLength r\<rparr>
                   in case Header_Clone h1 (Header r) of
                        (a, h2) \<Rightarrow>
                          (let request2 = request1\<lparr>Header := a\<rparr>;
                               sending = Log Info [S ''Sending request to wolf.sock:'',
                                                   S (Method request2), S (Path (URL request2))];
                               out = request2\<lparr>Ctx := Ctx r\<rparr>
                           in case client_Do env h2 out of
                                Inl err \<Rightarrow>
                                  (h2, [received, sending, BackendDo out,
                                        Log Error [E err, S ''Failed to send request to wolf.sock'']]
                                       @ http_Error env (error_text err) 500, Returned)
                              | Inr resp \<Rightarrow>
                                  (case stream_response env resp of
                                     (tr, oc) \<Rightarrow>
                                       (h2, [received, sending, BackendDo out] @ tr, oc)))))))"

subsection \<open>The health handlers (lines 96 to 105)\<close>

definition readyz :: "bool \<Rightarrow> event list" where
  "readyz ready = (if ready then [WriteHeader 200] else [WriteHeader 503])"

definition livez :: "event list" where
  "livez = [WriteHeader 200]"

subsection \<open>The process\<close>

text \<open>
  The process interleaves iterations of the monitor goroutine with the handling of
  requests. The flag \<open>ready\<close> starts as the zero value of \<open>atomic.Bool\<close> and changes
  only through the \<open>ReadyStore\<close> effects of the parts that run. An iteration is scheduled
  only while the goroutine has not returned, and nothing runs once the process has exited.
  A request to \<open>/api/v1/\<close> comes with its environment and the store holding its header.
\<close>

datatype action = Poll poll | Readyz | Livez | Api env request heap

record proc =
  ready :: bool
  mon :: mon_state
  trace :: "event list"

definition ready_after :: "bool \<Rightarrow> event list \<Rightarrow> bool" where
  "ready_after b es = foldl (\<lambda>b e. case e of ReadyStore v \<Rightarrow> v | _ \<Rightarrow> b) b es"

definition commit :: "proc \<Rightarrow> event list \<Rightarrow> proc" where
  "commit s es = s\<lparr>ready := ready_after (ready s) es, trace := trace s @ es\<rparr>"

definition init :: proc where
  "init = \<lparr>ready = False, mon = Polling, trace = []\<rparr>"

definition step :: "proc \<Rightarrow> action \<Rightarrow> proc" where
  "step s a =
     (if mon s = Exited then s
      else
        (case a of
           Poll p \<Rightarrow>
             (if mon s = Polling then
                (case monitor_iter p of
                   (es, ex) \<Rightarrow>
                     (commit s es)\<lparr>mon := (case ex of Continue \<Rightarrow> Polling
                                                      | Done \<Rightarrow> Finished
                                                      | Exit \<Rightarrow> Exited)\<rparr>)
              else s)
         | Readyz \<Rightarrow> commit s (readyz (ready s))
         | Livez \<Rightarrow> commit s livez
         | Api env r h \<Rightarrow> commit s (fst (snd (handler env (ready s) r h)))))"

definition run :: "proc \<Rightarrow> action list \<Rightarrow> proc" where
  "run s as = foldl step s as"

fun is_poll :: "action \<Rightarrow> bool" where
  "is_poll (Poll p) = True"
| "is_poll _ = False"

fun is_store :: "event \<Rightarrow> bool" where
  "is_store (ReadyStore v) = True"
| "is_store _ = False"

text \<open>
  What holds of every state the process reaches: the flag is set exactly when the
  monitor has returned, and the trace then holds one store, of \<open>true\<close>.
\<close>

definition ready_inv :: "proc \<Rightarrow> bool" where
  "ready_inv s =
     (ready s = (mon s = Finished)
      \<and> filter is_store (trace s) = (if ready s then [ReadyStore True] else []))"

subsection \<open>Reading a trace\<close>

text \<open>
  What the client gets: \<open>Header().Add\<close> and \<open>Header().Set\<close> canonicalise the key (the
  function \<open>canon\<close>, \<open>textproto.CanonicalMIMEHeaderKey\<close>) and change the header map of
  the response writer; \<open>WriteHeader\<close> sends the status line with the map as it is then.
\<close>

type_synonym header_map = "string \<rightharpoonup> string list"

definition values_of :: "header_map \<Rightarrow> string \<Rightarrow> string list" where
  "values_of hm k = (case hm k of None \<Rightarrow> [] | Some vs \<Rightarrow> vs)"

definition header_Add :: "(string \<Rightarrow> string) \<Rightarrow> header_map \<Rightarrow> string \<Rightarrow> string \<Rightarrow> header_map" where
  "header_Add canon hm k v = hm(canon k \<mapsto> values_of hm (canon k) @ [v])"

definition header_Set :: "(string \<Rightarrow> string) \<Rightarrow> header_map \<Rightarrow> string \<Rightarrow> string \<Rightarrow> header_map" where
  "header_Set canon hm k v = hm(canon k \<mapsto> [v])"

text \<open>
  \<open>textproto.CanonicalMIMEHeaderKey\<close>: a key made of token characters gets an upper-case
  letter first and after each hyphen and lower-case letters elsewhere; any other key is
  left as it is.
\<close>

fun canon_from :: "bool \<Rightarrow> string \<Rightarrow> string" where
  "canon_from upper [] = []"
| "canon_from upper (c # cs) =
     (if upper \<and> 97 \<le> (of_char c :: nat) \<and> (of_char c :: nat) \<le> 122
        then char_of ((of_char c :: nat) - 32)
      else if \<not> upper \<and> 65 \<le> (of_char c :: nat) \<and> (of_char c :: nat) \<le> 90
        then char_of ((of_char c :: nat) + 32)
      else c) # canon_from (c = CHR ''-'') cs"

definition CanonicalMIMEHeaderKey :: "string \<Rightarrow> string" where
  "CanonicalMIMEHeaderKey s = (if list_all isTokenRune s then canon_from True s else s)"

fun sent :: "(string \<Rightarrow> string) \<Rightarrow> header_map \<Rightarrow> event list \<Rightarrow> (int \<times> header_map) option" where
  "sent canon hm [] = None"
| "sent canon hm (HeaderAdd k v # es) = sent canon (header_Add canon hm k v) es"
| "sent canon hm (HeaderSet k v # es) = sent canon (header_Set canon hm k v) es"
| "sent canon hm (WriteHeader code # es) = Some (code, hm)"
| "sent canon hm (e # es) = sent canon hm es"

fun is_write :: "event \<Rightarrow> bool" where
  "is_write (ClientWrite d res) = True"
| "is_write _ = False"

fun is_head :: "event \<Rightarrow> bool" where
  "is_head (HeaderAdd k v) = True"
| "is_head (HeaderSet k v) = True"
| "is_head (WriteHeader code) = True"
| "is_head _ = False"

fun is_failed_write :: "event \<Rightarrow> bool" where
  "is_failed_write (ClientWrite d (Some e)) = True"
| "is_failed_write _ = False"

fun is_read_error :: "event \<Rightarrow> bool" where
  "is_read_error (BackendRead n d (Some (Err msg))) = True"
| "is_read_error _ = False"

fun is_eof_read :: "event \<Rightarrow> bool" where
  "is_eof_read (BackendRead n d (Some EOF)) = True"
| "is_eof_read _ = False"

fun is_log :: "event \<Rightarrow> bool" where
  "is_log (Log l args) = True"
| "is_log _ = False"

fun is_error_log :: "event \<Rightarrow> bool" where
  "is_error_log (Log Error args) = True"
| "is_error_log (Log Fatal args) = True"
| "is_error_log _ = False"

fun backend_calls :: "event list \<Rightarrow> request list" where
  "backend_calls [] = []"
| "backend_calls (BackendDo q # es) = q # backend_calls es"
| "backend_calls (e # es) = backend_calls es"

fun touches_backend :: "event \<Rightarrow> bool" where
  "touches_backend (BackendDo q) = True"
| "touches_backend (BackendRead n d err) = True"
| "touches_backend _ = False"

text \<open>The status the client is sent, if any.\<close>

definition status_sent :: "event list \<Rightarrow> int option" where
  "status_sent es = map_option fst (sent id Map.empty es)"

subsection \<open>A concrete environment\<close>

text \<open>
  For runs on concrete inputs: \<open>url.JoinPath\<close> and \<open>url.Parse\<close> on a base of the form
  \<open>scheme://\<close> and on path elements that need no percent-escaping. \<open>url.JoinPath\<close>
  joins the base path and the elements with \<open>path.Join\<close> (empty elements dropped, one
  slash between elements, then \<open>path.Clean\<close>: no empty and no \<open>.\<close> segments, a \<open>..\<close>
  removes the segment before it), keeps a trailing slash of the last element, and prints
  the URL; with an empty host the first path segment follows the two slashes.
\<close>

fun split_slash :: "string \<Rightarrow> string list" where
  "split_slash [] = [[]]"
| "split_slash (c # cs) =
     (if c = CHR ''/'' then [] # split_slash cs
      else (case split_slash cs of [] \<Rightarrow> [[c]] | s # ss \<Rightarrow> (c # s) # ss))"

fun clean_segs :: "string list \<Rightarrow> string list \<Rightarrow> string list" where
  "clean_segs acc [] = rev acc"
| "clean_segs acc (s # ss) =
     (if s = [] \<or> s = ''.'' then clean_segs acc ss
      else if s = ''..'' then clean_segs (tl acc) ss
      else clean_segs (s # acc) ss)"

definition path_Clean :: "string \<Rightarrow> string" where
  "path_Clean p =
     (case clean_segs [] (split_slash p) of
        [] \<Rightarrow> ''/''
      | segs \<Rightarrow> concat (map ((#) CHR ''/'') segs))"

definition plain_JoinPath :: "string \<Rightarrow> string list \<Rightarrow> error + string" where
  "plain_JoinPath base elem =
     (let joined = ''/'' @ concat (map ((#) CHR ''/'') (filter (\<lambda>e. e \<noteq> []) elem));
          p = tl (path_Clean joined);
          slash = (\<lambda>s. s \<noteq> [] \<and> last s = CHR ''/'')
      in Inr (base @ (if elem \<noteq> [] \<and> slash (last elem) \<and> \<not> slash p then p @ ''/'' else p)))"

definition plain_Parse :: "string \<Rightarrow> error + url" where
  "plain_Parse s =
     (let scheme = takeWhile (\<lambda>c. c \<noteq> CHR '':'') s;
          rest = drop (length scheme) s
      in if take 3 rest = ''://'' then
           (let hostpath = takeWhile (\<lambda>c. c \<noteq> CHR ''?'') (drop 3 rest);
                query = drop 1 (dropWhile (\<lambda>c. c \<noteq> CHR ''?'') (drop 3 rest))
            in Inr \<lparr>Scheme = scheme,
                    Host = takeWhile (\<lambda>c. c \<noteq> CHR ''/'') hostpath,
                    Path = dropWhile (\<lambda>c. c \<noteq> CHR ''/'') hostpath,
                    RawQuery = query\<rparr>)
         else Inl (Err ''parse: not an absolute URL''))"

definition plain_env :: "(error + response) \<Rightarrow> bool \<Rightarrow> (nat \<Rightarrow> error option) \<Rightarrow> env" where
  "plain_env answer flusher wr =
     \<lparr>url_JoinPath = plain_JoinPath, url_Parse = plain_Parse,
      client_Do = (\<lambda>h q. answer), is_Flusher = flusher, client_Write = wr\<rparr>"

text \<open>An environment in which \<open>url.JoinPath\<close> fails.\<close>

definition join_fails_env :: env where
  "join_fails_env =
     (plain_env (Inl (Err ''unused'')) True (\<lambda>k. None))
       \<lparr>url_JoinPath := (\<lambda>base elem. Inl (Err ''parse: invalid URL escape''))\<rparr>"

text \<open>
  A request \<open>GET /api/v1/sessions?id=7\<close> with the header \<open>X-Test: a\<close>, \<open>X-Test: b\<close>, the
  store that holds its header, and an event-stream response of two chunks.
\<close>

definition get_sessions :: request where
  "get_sessions =
     \<lparr>Method = ''GET'',
      URL = \<lparr>Scheme = [], Host = [], Path = ''/api/v1/sessions'', RawQuery = ''id=7''\<rparr>,
      Proto = ''HTTP/1.1'', ProtoMajor = 1, ProtoMinor = 1, Header = 0, Body = [],
      ContentLength = 0, TransferEncoding = [], Ctx = 1\<rparr>"

definition store0 :: heap where
  "store0 = \<lparr>store = [0 \<mapsto> HMap [(''X-Test'', 1)], 1 \<mapsto> Vals [''a'', ''b'']], brk = 2\<rparr>"

definition sse_response :: response where
  "sse_response =
     \<lparr>StatusCode = 200,
      RespHeader = [(''Content-Type'', [''text/event-stream''])],
      RespBody = [(''data: 1'', None), (''data: 2'', Some EOF)]\<rparr>"

text \<open>
  A start of the process: the socket is absent at the first poll, a request and a
  readiness probe arrive, the second poll finds the socket and connects, and a second
  probe arrives.
\<close>

definition startup :: "action list" where
  "startup =
     [Poll \<lparr>stat = Inl (Err ''stat /var/run/wolf.sock: no such file or directory''), dial = None\<rparr>,
      Api (plain_env (Inr sse_response) True (\<lambda>k. None)) get_sessions store0,
      Readyz,
      Poll \<lparr>stat = Inr 16777709, dial = None\<rparr>,
      Readyz]"

text \<open>The outbound request the handler builds for \<open>get_sessions\<close> in \<open>store0\<close>.\<close>

definition forwarded_sessions :: request where
  "forwarded_sessions =
     \<lparr>Method = ''GET'',
      URL = \<lparr>Scheme = ''http'', Host = ''wolf.sock'', Path = ''/api/v1/sessions'',
             RawQuery = []\<rparr>,
      Proto = ''HTTP/1.1'', ProtoMajor = 1, ProtoMinor = 1, Header = 4, Body = [],
      ContentLength = 0, TransferEncoding = [], Ctx = 1\<rparr>"

text \<open>
  A response whose only read returns four bytes together with an error that is not
  \<open>io.EOF\<close>, and a client that is gone: every \<open>Write\<close> fails.
\<close>

definition cut_response :: response where
  "cut_response =
     \<lparr>StatusCode = 200,
      RespHeader = [(''Content-Type'', [''text/event-stream''])],
      RespBody = [(''data'', Some (Err ''unexpected EOF''))]\<rparr>"

definition gone_client_env :: env where
  "gone_client_env = plain_env (Inr cut_response) True (\<lambda>k. Some (Err ''write: broken pipe''))"

section \<open>Properties\<close>

subsection \<open>The monitor\<close>

text \<open>
  C9. In an iteration of the monitor loop: when \<open>os.Stat\<close> fails (the path is absent) the
  monitor logs, sleeps 200ms and goes on with the next iteration; when the path exists
  and is not a socket the process ends with a fatal log and no later iteration runs,
  whatever the system would have answered; when the path is a socket and dialing fails
  the monitor logs a warning, sleeps 200ms and goes on with the next iteration.
\<close>

theorem monitor_iteration_policy:
  "(stat p = Inl e \<longrightarrow>
      monitor (p # ps) =
        ([Stat, Log Info [S ''Waiting for wolf.sock to appear...'', E e], Sleep 200]
           @ fst (monitor ps), snd (monitor ps)))
   \<and> (stat p = Inr m \<and> m AND ModeSocket = 0 \<longrightarrow>
      monitor (p # ps) = ([Stat, Log Fatal [S ''wolf.sock is not a socket'', M m]], Exited))
   \<and> (stat p = Inr m \<and> m AND ModeSocket \<noteq> 0 \<and> dial p = Some e' \<longrightarrow>
      monitor (p # ps) =
        ([Stat, Dial, Log Warning [S ''Waiting for wolf.sock to accept connections: '', E e'],
          Sleep 200] @ fst (monitor ps), snd (monitor ps)))"
  by (simp add: monitor_iter_def split: prod.split)

theorem monitor_iteration_policy_witness:
  "monitor [\<lparr>stat = Inl (Err ''stat /var/run/wolf.sock: no such file or directory''), dial = None\<rparr>]
     = ([Stat, Log Info [S ''Waiting for wolf.sock to appear...'',
                         E (Err ''stat /var/run/wolf.sock: no such file or directory'')],
         Sleep 200], Polling)
   \<and> (420 :: FileMode) AND ModeSocket = 0
   \<and> monitor [\<lparr>stat = Inr 420, dial = None\<rparr>, \<lparr>stat = Inr 16777709, dial = None\<rparr>]
     = ([Stat, Log Fatal [S ''wolf.sock is not a socket'', M 420]], Exited)
   \<and> (16777709 :: FileMode) AND ModeSocket \<noteq> 0
   \<and> monitor [\<lparr>stat = Inr 16777709, dial = Some (Err ''connection refused'')\<rparr>]
     = ([Stat, Dial, Log Warning [S ''Waiting for wolf.sock to accept connections: '',
                                  E (Err ''connection refused'')], Sleep 200], Polling)"
  using monitor_iteration_policy
          [of "\<lparr>stat = Inl (Err ''stat /var/run/wolf.sock: no such file or directory''), dial = None\<rparr>"
              "Err ''stat /var/run/wolf.sock: no such file or directory''" "[]" 420 "Err ''x''"]
        monitor_iteration_policy
          [of "\<lparr>stat = Inr 420, dial = None\<rparr>" "Err ''x''"
              "[\<lparr>stat = Inr 16777709, dial = None\<rparr>]" 420 "Err ''x''"]
        monitor_iteration_policy
          [of "\<lparr>stat = Inr 16777709, dial = Some (Err ''connection refused'')\<rparr>" "Err ''x''"
              "[]" 16777709 "Err ''connection refused''"]
  by (simp add: ModeSocket_def)

subsection \<open>The readiness gate and the construction of the outbound request\<close>

text \<open>
  C2. While \<open>ready\<close> is false the handler of \<open>/api/v1/\<close> logs the request, answers 503 and
  returns: whatever the request and the environment are, it leaves the store as it was
  (no outbound request is built), it calls neither \<open>client.Do\<close> nor the body reader, and
  the client is sent the status 503.
\<close>

theorem not_ready_fails_fast:
  "handler env False r h =
     (h, [Log Info [S ''Received request:'', S (Method r), S (Path (URL r))], WriteHeader 503],
      Returned)
   \<and> status_sent (fst (snd (handler env False r h))) = Some 503
   \<and> filter touches_backend (fst (snd (handler env False r h))) = []
   \<and> backend_calls (fst (snd (handler env False r h))) = []"
  by (simp add: handler_def status_sent_def)

text \<open>
  C5. The claim that the handler never dereferences a nil request does not hold of the
  code: when \<open>http.NewRequest\<close> returns an error (here a method that is not a token), the
  assignment \<open>request.Proto = r.Proto\<close> of line 123 runs before the error check of line
  128, and the handler panics without having written any response.
\<close>

theorem nil_request_panics:
  "handler (plain_env (Inr sse_response) True (\<lambda>k. None)) True
           (get_sessions\<lparr>Method := ''GE T''\<rparr>) store0
   = (store0, [Log Info [S ''Received request:'', S ''GE T'', S ''/api/v1/sessions'']],
      Panicked ''invalid memory address or nil pointer dereference'')"
  by (simp add: handler_def plain_env_def get_sessions_def plain_JoinPath_def
        http_NewRequest_def validMethod_def isTokenRune_def)

text \<open>
  C3, as stated: a failure to construct the outbound request yields a 502. In an
  environment where \<open>url.JoinPath\<close> fails, the client is sent 500, not 502.
\<close>

theorem join_failure_is_500_counterexample:
  "\<not> (status_sent (fst (snd (handler join_fails_env True get_sessions store0))) = Some 502)
   \<and> status_sent (fst (snd (handler join_fails_env True get_sessions store0))) = Some 500"
  by (simp add: handler_def join_fails_env_def plain_env_def status_sent_def http_Error_def)

text \<open>
  C3, amended. For a request that passes the readiness gate: when \<open>url.JoinPath\<close> fails,
  the handler logs the error, answers with \<open>http.Error\<close> and status 500
  (InternalServerError) and returns; and whenever the construction of the outbound
  request fails, in \<open>url.JoinPath\<close> or in \<open>http.NewRequest\<close>, the backend is not contacted.
\<close>

theorem construction_failure:
  "(url_JoinPath env ''http://'' [''wolf.sock'', Path (URL r)] = Inl err \<longrightarrow>
      handler env True r h =
        (h, [Log Info [S ''Received request:'', S (Method r), S (Path (URL r))],
             Log Error [E err, S ''Failed to join URL'']]
            @ http_Error env (''Failed to join URL: '' @ error_text err) 500, Returned)
      \<and> status_sent (fst (snd (handler env True r h))) = Some 500
      \<and> filter touches_backend (fst (snd (handler env True r h))) = [])
   \<and> (url_JoinPath env ''http://'' [''wolf.sock'', Path (URL r)] = Inr u
      \<and> fst (http_NewRequest env h (Method r) u (Body r)) = Inl err' \<longrightarrow>
      filter touches_backend (fst (snd (handler env True r h))) = [])"
proof (intro conjI impI)
  assume j: "url_JoinPath env ''http://'' [''wolf.sock'', Path (URL r)] = Inl err"
  then show "handler env True r h =
        (h, [Log Info [S ''Received request:'', S (Method r), S (Path (URL r))],
             Log Error [E err, S ''Failed to join URL'']]
            @ http_Error env (''Failed to join URL: '' @ error_text err) 500, Returned)"
    by (simp add: handler_def)
  from j show "status_sent (fst (snd (handler env True r h))) = Some 500"
    by (simp add: handler_def status_sent_def http_Error_def)
  from j show "filter touches_backend (fst (snd (handler env True r h))) = []"
    by (simp add: handler_def http_Error_def)
next
  assume a: "url_JoinPath env ''http://'' [''wolf.sock'', Path (URL r)] = Inr u
      \<and> fst (http_NewRequest env h (Method r) u (Body r)) = Inl err'"
  then obtain h1 where "http_NewRequest env h (Method r) u (Body r) = (Inl err', h1)"
    by (cases "http_NewRequest env h (Method r) u (Body r)") simp
  with a show "filter touches_backend (fst (snd (handler env True r h))) = []"
    by (simp add: handler_def)
qed

theorem construction_failure_witness:
  "url_JoinPath join_fails_env ''http://'' [''wolf.sock'', Path (URL get_sessions)]
     = Inl (Err ''parse: invalid URL escape'')
   \<and> status_sent (fst (snd (handler join_fails_env True get_sessions store0))) = Some 500
   \<and> filter touches_backend (fst (snd (handler join_fails_env True get_sessions store0))) = []
   \<and> fst (http_NewRequest (plain_env (Inr sse_response) True (\<lambda>k. None)) store0 ''GE T''
            ''http://wolf.sock/api/v1/sessions'' []) = Inl (Err ''net/http: invalid method GE T'')
   \<and> filter touches_backend (fst (snd (handler (plain_env (Inr sse_response) True (\<lambda>k. None)) True
           (get_sessions\<lparr>Method := ''GE T''\<rparr>) store0))) = []"
  using construction_failure [of join_fails_env get_sessions "Err ''parse: invalid URL escape''" store0
          "''x''" "Err ''x''"]
        construction_failure [of "plain_env (Inr sse_response) True (\<lambda>k. None)"
          "get_sessions\<lparr>Method := ''GE T''\<rparr>" "Err ''x''" store0
          "''http://wolf.sock/api/v1/sessions''" "Err ''net/http: invalid method GE T''"]
  by (simp add: join_fails_env_def plain_env_def get_sessions_def plain_JoinPath_def
        path_Clean_def http_NewRequest_def validMethod_def isTokenRune_def
        handler_def status_sent_def http_Error_def)

subsection \<open>The relay loop\<close>





subsection \<open>How the relay ends\<close>

lemma relay_exit:
  "list_all (\<lambda>(d, e). length d \<le> 4096) rs \<Longrightarrow> relay wr k rs = (tr, ex) \<Longrightarrow>
   (ex = LoopBreak \<longrightarrow> filter is_failed_write tr = [] \<and> filter is_read_error tr = []
        \<and> filter is_eof_read tr \<noteq> [] \<and> filter is_log tr = [])
   \<and> (ex = LoopBlocked \<longrightarrow> filter is_failed_write tr = [] \<and> filter is_read_error tr = []
        \<and> filter is_eof_read tr = [] \<and> filter is_log tr = [])
   \<and> ex \<noteq> LoopPanic
   \<and> (ex = LoopReturn \<longrightarrow>
        (filter is_failed_write tr \<noteq> [] \<and> filter is_error_log tr = []
           \<and> (\<exists>pre d e. tr = pre @ [ClientWrite d (Some e), Log Info [S ''Client connection closed'']]))
        \<or> (filter is_failed_write tr = [] \<and> filter is_eof_read tr = []
           \<and> filter is_read_error tr \<noteq> []
           \<and> (\<exists>pre m. tr = pre @ [Log Error [E (Err m), S ''Error reading from backend'']])))"
proof (induction rs arbitrary: k tr ex)
  case Nil
  then show ?case by auto
next
  case (Cons r rs)
  obtain c err where r: "r = (c, err)" by (cases r)
  with Cons.prems have small: "\<not> 4096 < length c" and rest: "list_all (\<lambda>(d, e). length d \<le> 4096) rs"
    by auto
  show ?case
  proof (cases "c \<noteq> [] \<and> wr k \<noteq> None")
    case True
    with Cons.prems(2) r small show ?thesis by auto
  next
    case False
    show ?thesis
    proof (cases err)
      case None
      obtain tr' ex' where t: "relay wr (if c \<noteq> [] then Suc k else k) rs = (tr', ex')"
        by (cases "relay wr (if c \<noteq> [] then Suc k else k) rs")
      from Cons.prems(2) r small False None t
      have tr: "tr = (BackendRead 4096 c None # (if c \<noteq> [] then [ClientWrite c None, Flush] else [])) @ tr'"
        and ex: "ex = ex'"
        by (auto simp add: Let_def split: if_splits)
      from Cons.IH [OF rest t] show ?thesis unfolding tr ex
        by (auto simp add: Cons_eq_append_conv)
    next
      case (Some e)
      with Cons.prems(2) r small False show ?thesis
        by (cases e) (auto simp add: Let_def split: if_splits)
    qed
  qed
qed

lemma write_head_filters:
  "filter is_failed_write (write_head resp) = []"
  "filter is_read_error (write_head resp) = []"
  "filter is_eof_read (write_head resp) = []"
  "filter is_error_log (write_head resp) = []"
  "filter is_log (write_head resp) = []"
  "filter is_write (write_head resp) = []"
  "filter touches_backend (write_head resp) = []"
  "Log l args \<notin> set (write_head resp)"
  by (auto simp add: write_head_def filter_empty_conv)

lemma relay_logs:
  "relay wr k rs = (tr, ex) \<Longrightarrow> Log l args \<in> set tr \<Longrightarrow>
     (l = Info \<and> args = [S ''Client connection closed'']) \<or> l = Error"
  by (induction rs arbitrary: k tr ex)
     (auto split: if_splits option.splits error.splits prod.splits simp: Let_def)

lemma stream_response_relay:
  "is_Flusher env \<Longrightarrow> relay (client_Write env) 0 (RespBody resp) = (rtr, ex) \<Longrightarrow>
   stream_response env resp =
     (case ex of
        LoopBreak \<Rightarrow>
          (write_head resp @ rtr @ [Log Info [S ''Request completed'', S ''statusCode'',
                                               I (StatusCode resp)], BodyClose], Returned)
      | LoopReturn \<Rightarrow> (write_head resp @ rtr @ [BodyClose], Returned)
      | LoopPanic \<Rightarrow> (write_head resp @ rtr @ [BodyClose], Panicked ''slice bounds out of range'')
      | LoopBlocked \<Rightarrow> (write_head resp @ rtr, Reading))"
  by (simp add: stream_response_def split: loop_exit.split)

lemma filter_is_log_mem: "filter is_log tr = [] \<Longrightarrow> Log l args \<notin> set tr"
  by (auto simp add: filter_empty_conv)

text \<open>
  C10, amended. For a response writer that can flush and a body reader that never
  returns more than the buffer holds: when a write to the client fails, the handler
  returns after the info line \<open>Client connection closed\<close>, with no error reported and no
  completion reported, even when the read that delivered the bytes also returned an
  error or \<open>io.EOF\<close>; when no write fails and a read returns an error other than
  \<open>io.EOF\<close>, that error is reported and the handler returns without reporting
  completion; completion with the status code is reported exactly when a read returns
  \<open>io.EOF\<close> and no write has failed, and the handler then returns; and the handler
  returns in no other way.
\<close>

theorem relay_termination:
  assumes fl: "is_Flusher env"
    and rc: "list_all (\<lambda>(d, e). length d \<le> 4096) (RespBody resp)"
  shows
  "(filter is_failed_write (fst (stream_response env resp)) \<noteq> [] \<longrightarrow>
      snd (stream_response env resp) = Returned
      \<and> filter is_error_log (fst (stream_response env resp)) = []
      \<and> Log Info [S ''Request completed'', S ''statusCode'', I (StatusCode resp)]
          \<notin> set (fst (stream_response env resp))
      \<and> (\<exists>pre d e. fst (stream_response env resp) =
            pre @ [ClientWrite d (Some e), Log Info [S ''Client connection closed''], BodyClose]))
   \<and> (filter is_failed_write (fst (stream_response env resp)) = []
      \<and> filter is_read_error (fst (stream_response env resp)) \<noteq> [] \<longrightarrow>
      snd (stream_response env resp) = Returned
      \<and> Log Info [S ''Request completed'', S ''statusCode'', I (StatusCode resp)]
          \<notin> set (fst (stream_response env resp))
      \<and> (\<exists>pre m. fst (stream_response env resp) =
            pre @ [Log Error [E (Err m), S ''Error reading from backend''], BodyClose]))
   \<and> ((Log Info [S ''Request completed'', S ''statusCode'', I (StatusCode resp)]
          \<in> set (fst (stream_response env resp)))
       = (filter is_failed_write (fst (stream_response env resp)) = []
          \<and> filter is_eof_read (fst (stream_response env resp)) \<noteq> []))
   \<and> (Log Info [S ''Request completed'', S ''statusCode'', I (StatusCode resp)]
          \<in> set (fst (stream_response env resp)) \<longrightarrow>
      snd (stream_response env resp) = Returned
      \<and> (\<exists>pre. fst (stream_response env resp) =
            pre @ [Log Info [S ''Request completed'', S ''statusCode'', I (StatusCode resp)],
                   BodyClose]))
   \<and> (snd (stream_response env resp) = Returned \<longrightarrow>
      filter is_failed_write (fst (stream_response env resp)) \<noteq> []
      \<or> filter is_read_error (fst (stream_response env resp)) \<noteq> []
      \<or> filter is_eof_read (fst (stream_response env resp)) \<noteq> [])"
proof -
  obtain rtr ex where rl: "relay (client_Write env) 0 (RespBody resp) = (rtr, ex)"
    by (cases "relay (client_Write env) 0 (RespBody resp)")
  note ex = relay_exit [OF rc rl]
  note sr = stream_response_relay [OF fl rl]
  show ?thesis
  proof (cases ex)
    case LoopBreak
    with ex have "filter is_failed_write rtr = []" "filter is_read_error rtr = []"
      "filter is_eof_read rtr \<noteq> []" "filter is_log rtr = []" by simp_all
    with sr LoopBreak show ?thesis
      by (simp add: write_head_filters)
  next
    case LoopBlocked
    with ex have "filter is_failed_write rtr = []" "filter is_read_error rtr = []"
      "filter is_eof_read rtr = []" "filter is_log rtr = []" by simp_all
    with sr LoopBlocked show ?thesis
      by (simp add: write_head_filters filter_is_log_mem)
  next
    case LoopPanic
    with ex show ?thesis by simp
  next
    case LoopReturn
    with ex consider
      (w) "filter is_failed_write rtr \<noteq> []" "filter is_error_log rtr = []"
          "\<exists>pre d e. rtr = pre @ [ClientWrite d (Some e), Log Info [S ''Client connection closed'']]"
      | (r) "filter is_failed_write rtr = []" "filter is_eof_read rtr = []"
          "filter is_read_error rtr \<noteq> []"
          "\<exists>pre m. rtr = pre @ [Log Error [E (Err m), S ''Error reading from backend'']]"
      by auto
    then show ?thesis
    proof cases
      case w
      from w(3) obtain pre d e where
        p: "rtr = pre @ [ClientWrite d (Some e), Log Info [S ''Client connection closed'']]"
        by blast
      have c: "Log Info [S ''Request completed'', S ''statusCode'', I (StatusCode resp)] \<notin> set rtr"
        using relay_logs [OF rl] by fastforce
      have "fst (stream_response env resp) = (write_head resp @ pre) @
          [ClientWrite d (Some e), Log Info [S ''Client connection closed''], BodyClose]"
        using sr LoopReturn p by simp
      then have e: "\<exists>pre d e. fst (stream_response env resp) =
            pre @ [ClientWrite d (Some e), Log Info [S ''Client connection closed''], BodyClose]"
        by blast
      from sr LoopReturn w(1,2) c e show ?thesis
        by (simp add: write_head_filters)
    next
      case r
      from r(4) obtain pre m where
        p: "rtr = pre @ [Log Error [E (Err m), S ''Error reading from backend'']]"
        by blast
      have c: "Log Info [S ''Request completed'', S ''statusCode'', I (StatusCode resp)] \<notin> set rtr"
        using relay_logs [OF rl] by fastforce
      have "fst (stream_response env resp) = (write_head resp @ pre) @
          [Log Error [E (Err m), S ''Error reading from backend''], BodyClose]"
        using sr LoopReturn p by simp
      then have e: "\<exists>pre m. fst (stream_response env resp) =
            pre @ [Log Error [E (Err m), S ''Error reading from backend''], BodyClose]"
        by blast
      from sr LoopReturn r(1,2,3) c e show ?thesis
        by (simp add: write_head_filters)
    qed
  qed
qed


text \<open>
  C10, as stated: a backend read error other than \<open>io.EOF\<close> is reported. When the read
  that fails also returns bytes and writing them to the client fails, the handler returns
  at line 167 and the read error is never reported.
\<close>

theorem read_error_unreported_counterexample:
  "fst (stream_response gone_client_env cut_response) =
     [HeaderAdd ''Content-Type'' ''text/event-stream'', WriteHeader 200,
      BackendRead 4096 ''data'' (Some (Err ''unexpected EOF'')),
      ClientWrite ''data'' (Some (Err ''write: broken pipe'')),
      Log Info [S ''Client connection closed''], BodyClose]
   \<and> \<not> (filter is_read_error (fst (stream_response gone_client_env cut_response)) \<noteq> []
        \<longrightarrow> filter is_error_log (fst (stream_response gone_client_env cut_response)) \<noteq> [])"
  by (simp add: stream_response_def gone_client_env_def plain_env_def cut_response_def
        write_head_def)

theorem relay_termination_witness:
  "is_Flusher gone_client_env
   \<and> list_all (\<lambda>(d, e). length d \<le> 4096) (RespBody cut_response)
   \<and> filter is_failed_write (fst (stream_response gone_client_env cut_response)) \<noteq> []
   \<and> snd (stream_response gone_client_env cut_response) = Returned
   \<and> filter is_error_log (fst (stream_response gone_client_env cut_response)) = []
   \<and> filter is_failed_write
        (fst (stream_response (plain_env (Inr cut_response) True (\<lambda>k. None)) cut_response)) = []
   \<and> filter is_read_error
        (fst (stream_response (plain_env (Inr cut_response) True (\<lambda>k. None)) cut_response)) \<noteq> []
   \<and> fst (stream_response (plain_env (Inr cut_response) True (\<lambda>k. None)) cut_response)
       = [HeaderAdd ''Content-Type'' ''text/event-stream'', WriteHeader 200,
          BackendRead 4096 ''data'' (Some (Err ''unexpected EOF'')),
          ClientWrite ''data'' None, Flush]
         @ [Log Error [E (Err ''unexpected EOF''), S ''Error reading from backend''], BodyClose]
   \<and> Log Info [S ''Request completed'', S ''statusCode'', I (StatusCode sse_response)]
       \<in> set (fst (stream_response (plain_env (Inr sse_response) True (\<lambda>k. None)) sse_response))
   \<and> snd (stream_response (plain_env (Inr sse_response) True (\<lambda>k. None)) sse_response) = Returned
   \<and> filter is_eof_read
        (fst (stream_response (plain_env (Inr sse_response) True (\<lambda>k. None)) sse_response)) \<noteq> []"
  using relay_termination [of gone_client_env cut_response]
        relay_termination [of "plain_env (Inr cut_response) True (\<lambda>k. None)" cut_response]
        relay_termination [of "plain_env (Inr sse_response) True (\<lambda>k. None)" sse_response]
  by (simp add: stream_response_def gone_client_env_def plain_env_def cut_response_def
        sse_response_def write_head_def)

subsection \<open>The head of the response\<close>

lemma sent_adds:
  "sent canon hm (map (HeaderAdd k) vs @ es) = sent canon (foldl (\<lambda>m v. header_Add canon m k v) hm vs) es"
  by (induction vs arbitrary: hm) auto

lemma values_foldl_add:
  "canon k = k \<Longrightarrow>
   values_of (foldl (\<lambda>m v. header_Add canon m k v) hm vs) k' =
     (if k' = k then values_of hm k @ vs else values_of hm k')"
  by (induction vs arbitrary: hm) (auto simp add: header_Add_def values_of_def)

lemma values_of_upd:
  "values_of (m(k \<mapsto> vs)) k' = (if k' = k then vs else values_of m k')"
  by (simp add: values_of_def)

lemma sent_head:
  "distinct (map fst hs) \<Longrightarrow> (\<forall>k \<in> fst ` set hs. canon k = k) \<Longrightarrow>
   (\<forall>k \<in> fst ` set hs. values_of hm k = []) \<Longrightarrow>
   \<exists>hm'. sent canon hm (concat (map (\<lambda>(key, values). map (HeaderAdd key) values) hs)
                          @ WriteHeader sc # es) = Some (sc, hm')
      \<and> (\<forall>k. values_of hm' k =
             (if k \<in> fst ` set hs then values_of (map_of hs) k else values_of hm k))"
proof (induction hs arbitrary: hm)
  case Nil
  then show ?case by simp
next
  case (Cons a hs)
  obtain k vs where a: "a = (k, vs)" by (cases a)
  let ?hm = "foldl (\<lambda>m v. header_Add canon m k v) hm vs"
  from Cons.prems a have ck: "canon k = k" and kn: "k \<notin> fst ` set hs"
    and d: "distinct (map fst hs)" and c: "\<forall>k \<in> fst ` set hs. canon k = k"
    and e: "values_of hm k = []" by auto
  note vf = values_foldl_add [of canon k, OF ck]
  have "\<forall>k' \<in> fst ` set hs. values_of ?hm k' = []"
    using Cons.prems(3) kn by (auto simp add: vf)
  from Cons.IH [OF d c this] obtain hm' where
    h: "sent canon ?hm (concat (map (\<lambda>(key, values). map (HeaderAdd key) values) hs)
                          @ WriteHeader sc # es) = Some (sc, hm')"
    and v: "\<forall>k. values_of hm' k =
             (if k \<in> fst ` set hs then values_of (map_of hs) k else values_of ?hm k)"
    by blast
  have "sent canon hm (concat (map (\<lambda>(key, values). map (HeaderAdd key) values) (a # hs))
                          @ WriteHeader sc # es) = Some (sc, hm')"
    using h a by (simp add: sent_adds)
  moreover have "\<forall>k'. values_of hm' k' =
             (if k' \<in> fst ` set (a # hs) then values_of (map_of (a # hs)) k' else values_of hm k')"
    using v a kn e by (auto simp add: vf values_of_upd)
  ultimately show ?case by blast
qed


lemma relay_plain:
  "relay wr k rs = (tr, ex) \<Longrightarrow>
     filter is_head tr = [] \<and> filter is_store tr = [] \<and> BackendDo q \<notin> set tr"
  by (induction rs arbitrary: k tr ex)
     (auto split: if_splits option.splits error.splits prod.splits simp: Let_def)

lemma write_head_plain:
  "filter is_store (write_head resp) = []" "BackendDo q \<notin> set (write_head resp)"
  by (auto simp add: write_head_def filter_empty_conv)

lemma stream_response_shape:
  "\<exists>post. fst (stream_response env resp) = write_head resp @ post
      \<and> filter is_head post = [] \<and> filter is_store post = [] \<and> BackendDo q \<notin> set post"
proof -
  obtain rtr ex where rl: "relay (client_Write env) 0 (RespBody resp) = (rtr, ex)"
    by (cases "relay (client_Write env) 0 (RespBody resp)")
  from relay_plain [OF rl] show ?thesis
    by (cases ex) (auto simp add: stream_response_def rl Let_def)
qed

lemma handler_forward:
  assumes hd: "handler env True r h = (h', tr, oc)" and bd: "BackendDo out \<in> set tr"
  shows "\<exists>u q0 h1 a.
      url_JoinPath env ''http://'' [''wolf.sock'', Path (URL r)] = Inr u
      \<and> http_NewRequest env h (Method r) u (Body r) = (Inr q0, h1)
      \<and> Header_Clone h1 (Header r) = (a, h')
      \<and> out = q0\<lparr>Proto := Proto r, ProtoMajor := ProtoMajor r, ProtoMinor := ProtoMinor r,
                   TransferEncoding := TransferEncoding r, ContentLength := ContentLength r,
                   Header := a, Ctx := Ctx r\<rparr>
      \<and> tr = [Log Info [S ''Received request:'', S (Method r), S (Path (URL r))],
               Log Info [S ''Sending request to wolf.sock:'', S (Method q0), S (Path (URL q0))],
               BackendDo out]
              @ (case client_Do env h' out of
                   Inl err \<Rightarrow> Log Error [E err, S ''Failed to send request to wolf.sock'']
                               # http_Error env (error_text err) 500
                 | Inr resp \<Rightarrow> fst (stream_response env resp))"
proof (cases "url_JoinPath env ''http://'' [''wolf.sock'', Path (URL r)]")
  case (Inl err)
  with hd bd show ?thesis by (auto simp add: handler_def http_Error_def)
next
  case (Inr u)
  obtain res h1 where nr: "http_NewRequest env h (Method r) u (Body r) = (res, h1)"
    by (cases "http_NewRequest env h (Method r) u (Body r)")
  show ?thesis
  proof (cases res)
    case (Inl err)
    with hd bd Inr nr show ?thesis by (auto simp add: handler_def)
  next
    case q: (Inr q0)
    obtain a h2 where cl: "Header_Clone h1 (Header r) = (a, h2)"
      by (cases "Header_Clone h1 (Header r)")
    let ?out = "q0\<lparr>Proto := Proto r, ProtoMajor := ProtoMajor r, ProtoMinor := ProtoMinor r,
                   TransferEncoding := TransferEncoding r, ContentLength := ContentLength r,
                   Header := a, Ctx := Ctx r\<rparr>"
    show ?thesis
    proof (cases "client_Do env h2 ?out")
      case (Inl err)
      with hd bd Inr nr q cl show ?thesis
        by (auto simp add: handler_def http_Error_def Let_def)
    next
      case r2: (Inr resp)
      obtain str soc where st: "stream_response env resp = (str, soc)"
        by (cases "stream_response env resp")
      from stream_response_shape [of env resp out] st
      have nb: "BackendDo out \<notin> set str" by (auto simp add: write_head_plain)
      from stream_response_shape [of env resp "?out"] st
      have nb': "BackendDo ?out \<notin> set str" by (auto simp add: write_head_plain)
      from hd Inr nr q cl r2 st
      have t: "tr = [Log Info [S ''Received request:'', S (Method r), S (Path (URL r))],
               Log Info [S ''Sending request to wolf.sock:'', S (Method q0), S (Path (URL q0))],
               BackendDo ?out] @ str" and hh: "h' = h2"
        by (auto simp add: handler_def Let_def)
      from t bd nb have o: "out = ?out" by auto
      from t hh o Inr nr q cl r2 st show ?thesis by simp
    qed
  qed
qed


text \<open>
  C7. When the backend answers a forwarded request with a response, the trace of the
  handler has, in this order: effects that neither write to the client nor touch its
  header; one \<open>Header().Add\<close> for every key/value pair of the response header;
  \<open>WriteHeader\<close> with the status code of the response; and then the rest, which holds
  every write of the body and no header operation. The client is sent exactly that status
  code, and for every key the values the response has for it, in their order. (The keys
  of a header map that \<open>client.Do\<close> returns are distinct and canonical.)
\<close>

theorem response_head_first:
  assumes hd: "handler env True r h = (h', tr, oc)" and bd: "BackendDo out \<in> set tr"
    and ans: "client_Do env h' out = Inr resp"
    and dk: "distinct (map fst (RespHeader resp))"
    and ck: "\<forall>k \<in> fst ` set (RespHeader resp). canon k = k"
  shows "\<exists>pre post hm.
      tr = pre @ concat (map (\<lambda>(key, values). map (HeaderAdd key) values) (RespHeader resp))
               @ [WriteHeader (StatusCode resp)] @ post
      \<and> filter is_write pre = [] \<and> filter is_head pre = [] \<and> filter is_head post = []
      \<and> sent canon Map.empty tr = Some (StatusCode resp, hm)
      \<and> (\<forall>k. values_of hm k = values_of (map_of (RespHeader resp)) k)"
proof -
  from handler_forward [OF hd bd] ans obtain q0 :: request where
    t: "tr = [Log Info [S ''Received request:'', S (Method r), S (Path (URL r))],
              Log Info [S ''Sending request to wolf.sock:'', S (Method q0), S (Path (URL q0))],
              BackendDo out] @ fst (stream_response env resp)"
    by auto
  from stream_response_shape [of env resp out] obtain post where
    p: "fst (stream_response env resp) = write_head resp @ post" and np: "filter is_head post = []"
    by blast
  let ?pre = "[Log Info [S ''Received request:'', S (Method r), S (Path (URL r))],
              Log Info [S ''Sending request to wolf.sock:'', S (Method q0), S (Path (URL q0))],
              BackendDo out]"
  let ?adds = "concat (map (\<lambda>(key, values). map (HeaderAdd key) values) (RespHeader resp))"
  have e: "\<forall>k \<in> fst ` set (RespHeader resp). values_of Map.empty k = []"
    by (simp add: values_of_def)
  from sent_head [OF dk ck e, of "StatusCode resp" post] obtain hm where
    s: "sent canon Map.empty (?adds @ WriteHeader (StatusCode resp) # post) = Some (StatusCode resp, hm)"
    and v: "\<forall>k. values_of hm k =
             (if k \<in> fst ` set (RespHeader resp) then values_of (map_of (RespHeader resp)) k
              else values_of Map.empty k)"
    by blast
  have v': "\<forall>k. values_of hm k = values_of (map_of (RespHeader resp)) k"
  proof
    fix k
    show "values_of hm k = values_of (map_of (RespHeader resp)) k"
    proof (cases "k \<in> fst ` set (RespHeader resp)")
      case True
      with v show ?thesis by simp
    next
      case False
      then have "map_of (RespHeader resp) k = None" by (simp add: map_of_eq_None_iff)
      with v False show ?thesis by (simp add: values_of_def)
    qed
  qed
  have tr: "tr = ?pre @ ?adds @ [WriteHeader (StatusCode resp)] @ post"
    using t p by (simp add: write_head_def)
  have "sent canon Map.empty tr = Some (StatusCode resp, hm)"
    using s unfolding tr by simp
  with tr np v' show ?thesis by (intro exI [of _ ?pre] exI [of _ post] exI [of _ hm]) simp
qed


lemma handler_sessions:
  "handler (plain_env (Inr sse_response) True (\<lambda>k. None)) True get_sessions store0 =
     (\<lparr>store = [0 \<mapsto> HMap [(''X-Test'', 1)], 1 \<mapsto> Vals [''a'', ''b''], 2 \<mapsto> HMap [],
                3 \<mapsto> Vals [''a'', ''b''], 4 \<mapsto> HMap [(''X-Test'', 3)]], brk = 5\<rparr>,
      [Log Info [S ''Received request:'', S ''GET'', S ''/api/v1/sessions''],
       Log Info [S ''Sending request to wolf.sock:'', S ''GET'', S ''/api/v1/sessions''],
       BackendDo forwarded_sessions,
       HeaderAdd ''Content-Type'' ''text/event-stream'', WriteHeader 200,
       BackendRead 4096 ''data: 1'' None, ClientWrite ''data: 1'' None, Flush,
       BackendRead 4096 ''data: 2'' (Some EOF), ClientWrite ''data: 2'' None, Flush,
       Log Info [S ''Request completed'', S ''statusCode'', I 200], BodyClose],
      Returned)"
  by (simp add: handler_def plain_env_def get_sessions_def store0_def plain_JoinPath_def
        path_Clean_def http_NewRequest_def validMethod_def isTokenRune_def plain_Parse_def
        alloc_def Header_Clone_def entries_at_def vals_at_def stream_response_def
        sse_response_def write_head_def forwarded_sessions_def)

lemma canonical_content_type: "CanonicalMIMEHeaderKey ''Content-Type'' = ''Content-Type''"
  by (simp add: CanonicalMIMEHeaderKey_def isTokenRune_def)

theorem response_head_first_witness:
  "BackendDo forwarded_sessions
     \<in> set (fst (snd (handler (plain_env (Inr sse_response) True (\<lambda>k. None)) True
                         get_sessions store0)))
   \<and> distinct (map fst (RespHeader sse_response))
   \<and> list_all (\<lambda>k. CanonicalMIMEHeaderKey k = k) (map fst (RespHeader sse_response))
   \<and> (\<exists>pre post hm.
        fst (snd (handler (plain_env (Inr sse_response) True (\<lambda>k. None)) True
                    get_sessions store0))
          = pre @ [HeaderAdd ''Content-Type'' ''text/event-stream'']
              @ [WriteHeader 200] @ post
        \<and> filter is_write pre = [] \<and> filter is_head pre = [] \<and> filter is_head post = []
        \<and> sent CanonicalMIMEHeaderKey Map.empty
             (fst (snd (handler (plain_env (Inr sse_response) True (\<lambda>k. None)) True
                          get_sessions store0)))
            = Some (200, hm)
        \<and> (\<forall>k. values_of hm k
                = values_of (map_of [(''Content-Type'', [''text/event-stream''])]) k))"
proof -
  let ?E = "plain_env (Inr sse_response) True (\<lambda>k. None)"
  have h: "handler ?E True get_sessions store0 =
      (fst (handler ?E True get_sessions store0),
       fst (snd (handler ?E True get_sessions store0)),
       snd (snd (handler ?E True get_sessions store0)))" by simp
  have b: "BackendDo forwarded_sessions \<in> set (fst (snd (handler ?E True get_sessions store0)))"
    by (simp add: handler_sessions)
  have a: "client_Do ?E (fst (handler ?E True get_sessions store0)) forwarded_sessions
             = Inr sse_response"
    by (simp add: plain_env_def)
  have d: "distinct (map fst (RespHeader sse_response))" by (simp add: sse_response_def)
  have c: "\<forall>k \<in> fst ` set (RespHeader sse_response). CanonicalMIMEHeaderKey k = k"
    by (simp add: sse_response_def canonical_content_type)
  from response_head_first [OF h b a d c] b d c show ?thesis
    by (simp add: sse_response_def)
qed

subsection \<open>The outbound request\<close>

lemma clone_entries_props:
  assumes "wf_heap h" and "list_all (\<lambda>(k, sa). sa < b) kvs" and "b \<le> brk h"
    and "clone_entries h kvs = (kvs', h2)"
  shows "wf_heap h2 \<and> brk h \<le> brk h2 \<and> (\<forall>a < brk h. store h2 a = store h a)
     \<and> list_all (\<lambda>(k, sa). brk h \<le> sa \<and> sa < brk h2) kvs'
     \<and> map (\<lambda>(k, sa). (k, vals_at h2 sa)) kvs' = map (\<lambda>(k, sa). (k, vals_at h sa)) kvs"
  using assms
proof (induction kvs arbitrary: h kvs' h2)
  case Nil
  then show ?case by simp
next
  case (Cons e kvs)
  obtain k sa where e: "e = (k, sa)" by (cases e)
  let ?h1 = "h\<lparr>store := (store h)(brk h \<mapsto> Vals (vals_at h sa)), brk := Suc (brk h)\<rparr>"
  obtain kvs1 h3 where c: "clone_entries ?h1 kvs = (kvs1, h3)"
    by (cases "clone_entries ?h1 kvs")
  from Cons.prems(4) e c have r: "kvs' = (k, brk h) # kvs1" "h2 = h3"
    by (simp_all add: alloc_def)
  have w1: "wf_heap ?h1" using Cons.prems(1) by (simp add: wf_heap_def)
  have l1: "list_all (\<lambda>(k, sa). sa < b) kvs" using Cons.prems(2) by simp
  have b1: "b \<le> brk ?h1" using Cons.prems(3) by simp
  from Cons.IH [OF w1 l1 b1 c]
  have ih: "wf_heap h3" "brk ?h1 \<le> brk h3" "\<forall>a < brk ?h1. store h3 a = store ?h1 a"
    "list_all (\<lambda>(k, sa). brk ?h1 \<le> sa \<and> sa < brk h3) kvs1"
    "map (\<lambda>(k, sa). (k, vals_at h3 sa)) kvs1 = map (\<lambda>(k, sa). (k, vals_at ?h1 sa)) kvs"
    by simp_all
  have sa: "sa < brk h" using Cons.prems(2,3) e by simp
  have old: "\<forall>a < brk h. store h3 a = store h a" using ih(3) by simp
  have new: "vals_at h3 (brk h) = vals_at h sa" using ih(3) by (simp add: vals_at_def)
  have same: "map (\<lambda>(k, sa). (k, vals_at ?h1 sa)) kvs = map (\<lambda>(k, sa). (k, vals_at h sa)) kvs"
    using l1 Cons.prems(3) by (induction kvs) (auto simp add: vals_at_def)
  have l2: "list_all (\<lambda>(k, sa). brk h \<le> sa \<and> sa < brk h3) kvs1"
    using ih(4) by (induction kvs1) auto
  from ih(1,2) old new same ih(5) l2 show ?case unfolding r
    by (simp add: e)
qed


lemma header_of_cong:
  assumes "store h'' a = store h' a"
    and "list_all (\<lambda>(k, sa). store h'' sa = store h' sa) (entries_at h' a)"
  shows "header_of h'' a = header_of h' a"
proof -
  have e: "entries_at h'' a = entries_at h' a" using assms(1) by (simp add: entries_at_def)
  have "map (\<lambda>(k, sa). (k, vals_at h'' sa)) kvs = map (\<lambda>(k, sa). (k, vals_at h' sa)) kvs"
    if "list_all (\<lambda>(k, sa). store h'' sa = store h' sa) kvs" for kvs
    using that by (induction kvs) (auto simp add: vals_at_def)
  with assms(2) e show ?thesis by (simp add: header_of_def)
qed

lemma Header_Clone_props:
  assumes wf: "wf_heap h1" and lt: "a0 < b" and sl: "list_all (\<lambda>(k, sa). sa < b) (entries_at h1 a0)"
    and b: "b \<le> brk h1" and cl: "Header_Clone h1 a0 = (a, h2)"
  shows "wf_heap h2 \<and> brk h1 \<le> a \<and> a < brk h2 \<and> (\<forall>x < brk h1. store h2 x = store h1 x)
     \<and> header_of h2 a = header_of h1 a0
     \<and> list_all (\<lambda>(k, sa). brk h1 \<le> sa \<and> sa < brk h2) (entries_at h2 a)"
proof -
  obtain kvs' h3 where c: "clone_entries h1 (entries_at h1 a0) = (kvs', h3)"
    by (cases "clone_entries h1 (entries_at h1 a0)")
  from clone_entries_props [OF wf sl b c]
  have p: "wf_heap h3" "brk h1 \<le> brk h3" "\<forall>x < brk h1. store h3 x = store h1 x"
    "list_all (\<lambda>(k, sa). brk h1 \<le> sa \<and> sa < brk h3) kvs'"
    "map (\<lambda>(k, sa). (k, vals_at h3 sa)) kvs' = map (\<lambda>(k, sa). (k, vals_at h1 sa)) (entries_at h1 a0)"
    by simp_all
  from cl c have a: "a = brk h3" and st: "store h2 = (store h3)(brk h3 \<mapsto> HMap kvs')"
    and bk: "brk h2 = Suc (brk h3)"
    by (auto simp add: Header_Clone_def alloc_def)
  have e: "entries_at h2 a = kvs'" by (simp add: entries_at_def a st)
  have v: "map (\<lambda>(k, sa). (k, vals_at h2 sa)) kvs = map (\<lambda>(k, sa). (k, vals_at h3 sa)) kvs"
    if "list_all (\<lambda>(k, sa). brk h1 \<le> sa \<and> sa < brk h3) kvs" for kvs
    using that by (induction kvs) (auto simp add: vals_at_def st)
  have l: "list_all (\<lambda>(k, sa). brk h1 \<le> sa \<and> sa < brk h2) kvs'"
    using p(4) by (auto simp add: list_all_iff bk)
  have w: "wf_heap h2" using p(1) by (simp add: wf_heap_def st bk)
  have f: "\<forall>x < brk h1. store h2 x = store h1 x" using p(2,3) by (simp add: st)
  have hd: "header_of h2 a = header_of h1 a0"
    using v [OF p(4)] p(5) e by (simp add: header_of_def)
  from w p(2) f hd l e show ?thesis by (simp add: a bk)
qed

text \<open>
  C6. When the handler forwards a request (one with a method, as every request the server
  delivers has, held in a well-formed store), the outbound request has the method, the
  protocol version, the transfer-encoding list, the content length and the body of the
  inbound one; its header stands for the same multi-map as the inbound header, which is
  itself unchanged; and it is a copy of its own: the header map is another object, and
  in any later store that still holds the objects allocated during the call, whatever
  has happened to all others, the inbound header map and its slices among them, the
  outbound header reads the same.
\<close>

theorem forwarded_request_fidelity:
  assumes hd: "handler env True r h = (h', tr, oc)" and bd: "BackendDo out \<in> set tr"
    and m: "Method r \<noteq> []" and wf: "wf_request h r"
  shows "Method out = Method r \<and> Proto out = Proto r \<and> ProtoMajor out = ProtoMajor r
     \<and> ProtoMinor out = ProtoMinor r \<and> TransferEncoding out = TransferEncoding r
     \<and> ContentLength out = ContentLength r \<and> Body out = Body r
     \<and> header_of h' (Header out) = header_of h (Header r)
     \<and> header_of h' (Header r) = header_of h (Header r)
     \<and> Header out \<noteq> Header r
     \<and> (\<forall>h''. (\<forall>a. brk h \<le> a \<and> a < brk h' \<longrightarrow> store h'' a = store h' a) \<longrightarrow>
            header_of h'' (Header out) = header_of h' (Header out))"
proof -
  from handler_forward [OF hd bd] obtain u q0 h1 a where
    nr: "http_NewRequest env h (Method r) u (Body r) = (Inr q0, h1)"
    and cl: "Header_Clone h1 (Header r) = (a, h')"
    and out: "out = q0\<lparr>Proto := Proto r, ProtoMajor := ProtoMajor r, ProtoMinor := ProtoMinor r,
                   TransferEncoding := TransferEncoding r, ContentLength := ContentLength r,
                   Header := a, Ctx := Ctx r\<rparr>"
    by blast
  from nr m have q0: "Method q0 = Method r" "Body q0 = Body r"
    and h1: "h1 = h\<lparr>store := (store h)(brk h \<mapsto> HMap []), brk := Suc (brk h)\<rparr>"
    by (auto simp add: http_NewRequest_def alloc_def Let_def split: if_splits sum.splits)
  from wf have wh: "wf_heap h" and lt: "Header r < brk h"
    and sl: "list_all (\<lambda>(k, sa). sa < brk h) (entries_at h (Header r))"
    by (simp_all add: wf_request_def)
  have w1: "wf_heap h1" using wh unfolding h1 by (simp add: wf_heap_def)
  have e1: "entries_at h1 (Header r) = entries_at h (Header r)"
    using lt unfolding h1 by (simp add: entries_at_def)
  have b1: "brk h \<le> brk h1" unfolding h1 by simp
  have s1: "\<forall>x < brk h. store h1 x = store h x" unfolding h1 by simp
  from Header_Clone_props [OF w1 lt _ b1 cl] sl e1
  have p: "brk h1 \<le> a" "a < brk h'" "\<forall>x < brk h1. store h' x = store h1 x"
    "header_of h' a = header_of h1 (Header r)"
    "list_all (\<lambda>(k, sa). brk h1 \<le> sa \<and> sa < brk h') (entries_at h' a)"
    by simp_all
  have old: "\<forall>x < brk h. store h' x = store h x" using p(3) s1 b1 by simp
  have sl': "list_all (\<lambda>(k, sa). store h1 sa = store h sa) (entries_at h (Header r))"
    using sl s1 by (induction "entries_at h (Header r)") (auto simp add: list_all_iff)
  have i1: "header_of h1 (Header r) = header_of h (Header r)"
    using header_of_cong [of h1 "Header r" h] s1 lt sl' by simp
  have sl'': "list_all (\<lambda>(k, sa). store h' sa = store h sa) (entries_at h (Header r))"
    using sl old by (auto simp add: list_all_iff)
  have i2: "header_of h' (Header r) = header_of h (Header r)"
    using header_of_cong [of h' "Header r" h] old lt sl'' by simp
  have fr: "header_of h'' a = header_of h' a"
    if "\<forall>x. brk h \<le> x \<and> x < brk h' \<longrightarrow> store h'' x = store h' x" for h''
  proof (rule header_of_cong)
    from that p(1,2) b1 show "store h'' a = store h' a" by simp
    from that p(5) b1 show "list_all (\<lambda>(k, sa). store h'' sa = store h' sa) (entries_at h' a)"
      by (auto simp add: list_all_iff)
  qed
  have ne: "a \<noteq> Header r" using p(1) b1 lt by simp
  have o: "Method out = Method q0" "Body out = Body q0" "Proto out = Proto r"
    "ProtoMajor out = ProtoMajor r" "ProtoMinor out = ProtoMinor r"
    "TransferEncoding out = TransferEncoding r" "ContentLength out = ContentLength r"
    and oh: "Header out = a"
    by (simp_all add: out)
  have first: "Method out = Method r \<and> Proto out = Proto r \<and> ProtoMajor out = ProtoMajor r
     \<and> ProtoMinor out = ProtoMinor r \<and> TransferEncoding out = TransferEncoding r
     \<and> ContentLength out = ContentLength r \<and> Body out = Body r
     \<and> header_of h' (Header out) = header_of h (Header r)
     \<and> header_of h' (Header r) = header_of h (Header r)
     \<and> Header out \<noteq> Header r"
    using o oh q0 p(4) i1 i2 ne by simp
  have last: "\<forall>h''. (\<forall>a. brk h \<le> a \<and> a < brk h' \<longrightarrow> store h'' a = store h' a) \<longrightarrow>
            header_of h'' (Header out) = header_of h' (Header out)"
    unfolding oh using fr by blast
  from first last show ?thesis by blast
qed


lemma wf_sessions: "wf_request store0 get_sessions"
  by (auto simp add: wf_request_def wf_heap_def store0_def get_sessions_def entries_at_def)

theorem forwarded_request_fidelity_witness:
  "BackendDo forwarded_sessions
     \<in> set (fst (snd (handler (plain_env (Inr sse_response) True (\<lambda>k. None)) True
                         get_sessions store0)))
   \<and> Method get_sessions \<noteq> [] \<and> wf_request store0 get_sessions
   \<and> Method forwarded_sessions = ''GET'' \<and> Proto forwarded_sessions = ''HTTP/1.1''
   \<and> ContentLength forwarded_sessions = ContentLength get_sessions
   \<and> header_of (fst (handler (plain_env (Inr sse_response) True (\<lambda>k. None)) True
                       get_sessions store0)) (Header forwarded_sessions)
       = [(''X-Test'', [''a'', ''b''])]
   \<and> header_of store0 (Header get_sessions) = [(''X-Test'', [''a'', ''b''])]
   \<and> Header forwarded_sessions \<noteq> Header get_sessions
   \<and> header_of
        ((fst (handler (plain_env (Inr sse_response) True (\<lambda>k. None)) True get_sessions store0))
           \<lparr>store := (store (fst (handler (plain_env (Inr sse_response) True (\<lambda>k. None)) True
                                    get_sessions store0)))(1 \<mapsto> Vals [''z''])\<rparr>)
        (Header forwarded_sessions)
       = [(''X-Test'', [''a'', ''b''])]"
proof -
  let ?E = "plain_env (Inr sse_response) True (\<lambda>k. None)"
  let ?h = "fst (handler ?E True get_sessions store0)"
  have h: "handler ?E True get_sessions store0 =
      (?h, fst (snd (handler ?E True get_sessions store0)),
       snd (snd (handler ?E True get_sessions store0)))" by simp
  have b: "BackendDo forwarded_sessions \<in> set (fst (snd (handler ?E True get_sessions store0)))"
    by (simp add: handler_sessions)
  have m: "Method get_sessions \<noteq> []" by (simp add: get_sessions_def)
  note f = forwarded_request_fidelity [OF h b m wf_sessions]
  have i: "header_of store0 (Header get_sessions) = [(''X-Test'', [''a'', ''b''])]"
    by (simp add: header_of_def entries_at_def vals_at_def store0_def get_sessions_def)
  have k: "\<forall>a. brk store0 \<le> a \<and> a < brk ?h \<longrightarrow>
             store (?h\<lparr>store := (store ?h)(1 \<mapsto> Vals [''z''])\<rparr>) a = store ?h a"
    by (simp add: store0_def)
  from f have "header_of (?h\<lparr>store := (store ?h)(1 \<mapsto> Vals [''z''])\<rparr>) (Header forwarded_sessions)
      = header_of ?h (Header forwarded_sessions)"
    using k by blast
  with f i b m wf_sessions show ?thesis
    by (simp add: forwarded_sessions_def get_sessions_def)
qed




subsection \<open>The readiness flag\<close>

lemma ready_after_no_store: "filter is_store es = [] \<Longrightarrow> ready_after b es = b"
proof (induction es rule: rev_induct)
  case Nil
  then show ?case by (simp add: ready_after_def)
next
  case (snoc e es)
  then show ?case by (cases e) (simp_all add: ready_after_def split: if_splits)
qed

lemma handler_no_store: "filter is_store (fst (snd (handler env rdy r h))) = []"
proof -
  have s: "filter is_store (fst (stream_response env resp)) = []" for resp
    using stream_response_shape [of env resp r] by (auto simp add: write_head_plain)
  have t: "filter is_store tr = []" if "stream_response env resp = (tr, oc)" for resp tr oc
    using s [of resp] that by simp
  show ?thesis
    by (auto simp add: handler_def http_Error_def Let_def t split: sum.splits prod.splits)
qed

lemma monitor_iter_stores:
  "monitor_iter p = (es, ex) \<Longrightarrow>
     filter is_store es = (if ex = Done then [ReadyStore True] else [])
     \<and> ready_after b es = (b \<or> ex = Done)"
  by (auto simp add: monitor_iter_def ready_after_def split: sum.splits if_splits option.splits)

lemma step_ready_mono: "ready s \<Longrightarrow> ready (step s a)"
proof (cases a)
  case (Poll p)
  assume r: "ready s"
  obtain es ex where m: "monitor_iter p = (es, ex)" by (cases "monitor_iter p")
  from monitor_iter_stores [OF m, of True] r Poll m show ?thesis
    by (simp add: step_def commit_def)
next
  case Readyz
  assume "ready s"
  with Readyz show ?thesis by (simp add: step_def commit_def readyz_def ready_after_def)
next
  case Livez
  assume "ready s"
  with Livez show ?thesis by (simp add: step_def commit_def livez_def ready_after_def)
next
  case (Api env r h)
  assume "ready s"
  with Api show ?thesis
    by (simp add: step_def commit_def ready_after_no_store [OF handler_no_store])
qed

lemma health_no_store: "filter is_store (readyz b) = []" "filter is_store livez = []"
  by (simp_all add: readyz_def livez_def)

lemma step_not_poll: "\<not> is_poll a \<Longrightarrow> ready (step s a) = ready s \<and> mon (step s a) = mon s
    \<and> filter is_store (trace (step s a)) = filter is_store (trace s)"
  by (cases a)
     (simp_all add: step_def commit_def health_no_store handler_no_store
        ready_after_no_store [OF handler_no_store] ready_after_no_store [OF health_no_store(1)]
        ready_after_no_store [OF health_no_store(2)])

lemma step_inv: "ready_inv s \<Longrightarrow> ready_inv (step s a)"
proof (cases "is_poll a")
  case False
  assume "ready_inv s"
  with step_not_poll [OF False, of s] show ?thesis by (simp add: ready_inv_def)
next
  case True
  assume i: "ready_inv s"
  from True obtain p where a: "a = Poll p" by (cases a) simp_all
  obtain es ex where m: "monitor_iter p = (es, ex)" by (cases "monitor_iter p")
  show ?thesis
  proof (cases "mon s = Polling")
    case False
    with a show ?thesis using i by (simp add: step_def)
  next
    case True
    with i have nr: "\<not> ready s" by (simp add: ready_inv_def)
    from monitor_iter_stores [OF m, of False] i True nr a m show ?thesis
      by (cases ex) (simp_all add: ready_inv_def step_def commit_def)
  qed
qed

lemma run_inv: "ready_inv s \<Longrightarrow> ready_inv (run s as)"
  by (induction as arbitrary: s) (simp_all add: run_def step_inv)

lemma init_inv: "ready_inv init"
  by (simp add: ready_inv_def init_def)

text \<open>
  C8. The flag \<open>ready\<close> starts false. No step of the process (an iteration of the
  monitor, a health probe, a request to \<open>/api/v1/\<close>) takes it from true to false, and
  a step that is not an iteration of the monitor leaves it as it is: the monitor is the
  only writer. In every run of the process from its start the stores into the flag are
  none while it is false and exactly one, of \<open>true\<close>, once it is true; the flag being
  true, the monitor has returned; and once the monitor has returned, no iteration runs
  again, whatever the socket path has become.
\<close>

theorem readiness_monotonic:
  "ready init = False
   \<and> (ready s \<longrightarrow> ready (step s a))
   \<and> (\<not> is_poll a \<longrightarrow> ready (step s a) = ready s)
   \<and> filter is_store (trace (run init as)) = (if ready (run init as) then [ReadyStore True] else [])
   \<and> (ready (run init as) \<longrightarrow> mon (run init as) = Finished)
   \<and> (mon s = Finished \<longrightarrow> step s (Poll p) = s)"
proof -
  have i: "ready_inv (run init as)" by (rule run_inv [OF init_inv])
  have "mon s = Finished \<longrightarrow> step s (Poll p) = s" by (simp add: step_def)
  with i step_ready_mono [of s a] step_not_poll [of a s] show ?thesis
    by (auto simp add: ready_inv_def init_def)
qed


lemma run_startup:
  "run init startup =
     \<lparr>ready = True, mon = Finished,
      trace = [Stat, Log Info [S ''Waiting for wolf.sock to appear...'',
                               E (Err ''stat /var/run/wolf.sock: no such file or directory'')],
               Sleep 200,
               Log Info [S ''Received request:'', S ''GET'', S ''/api/v1/sessions''],
               WriteHeader 503,
               WriteHeader 503,
               Stat, Dial, Log Info [S ''wolf.sock is ready''], StartAgent, ReadyStore True,
               ConnClose,
               WriteHeader 200]\<rparr>"
  by (simp add: run_def startup_def init_def step_def commit_def monitor_iter_def ModeSocket_def
        ready_after_def readyz_def handler_def get_sessions_def)

theorem readiness_monotonic_witness:
  "ready (run init startup)
   \<and> ready (step (run init startup) Readyz)
   \<and> \<not> is_poll Readyz
   \<and> filter is_store (trace (run init startup)) = [ReadyStore True]
   \<and> mon (run init startup) = Finished
   \<and> step (run init startup) (Poll \<lparr>stat = Inr 420, dial = None\<rparr>) = run init startup"
  using readiness_monotonic [of "run init startup" Readyz startup "\<lparr>stat = Inr 420, dial = None\<rparr>"]
  by (simp add: run_startup)

end
